theory Spec2Isabelle
  imports Complex_Main "HOL-Library.Word" "HOL-Library.Sublist"
begin

unbundle bit_operations_syntax

section \<open>The one-wire temperature sensor package \<open>rpionewire\<close>\<close>

text \<open>
  A shallow embedding of \<^verbatim>\<open>rpionewire.go\<close>: device discovery (\<^verbatim>\<open>findDevices\<close>,
  \<^verbatim>\<open>getID\<close>, \<^verbatim>\<open>newDS1820\<close>, \<^verbatim>\<open>LoadDevices\<close>) and sample reading
  (\<^verbatim>\<open>ReadDevices\<close>). The file system, the \<^verbatim>\<open>modprobe\<close> command and the line
  scanner are the environment; the library functions the package calls (\<^verbatim>\<open>regexp\<close>,
  \<^verbatim>\<open>strconv.ParseInt\<close>, \<^verbatim>\<open>strings.Contains\<close>, \<^verbatim>\<open>binary.Read\<close>,
  \<^verbatim>\<open>bufio.ScanLines\<close>) are modelled after their documented behaviour.
\<close>

subsection \<open>Errors and outcomes\<close>

type_synonym byte = "8 word"

text \<open>
  Every error value the package can return. Errors of the operating system are opaque
  and carry their text; the formatted errors of the package carry the values that are
  formatted into them.
\<close>

datatype error =
    OSError string                      \<comment> \<open>an error of \<^verbatim>\<open>os\<close> or \<^verbatim>\<open>os/exec\<close>\<close>
  | EOF                                 \<comment> \<open>\<^verbatim>\<open>io.EOF\<close>\<close>
  | ErrUnexpectedEOF                    \<comment> \<open>\<^verbatim>\<open>io.ErrUnexpectedEOF\<close>\<close>
  | ErrSyntax string                    \<comment> \<open>\<^verbatim>\<open>strconv.ErrSyntax\<close> on the given text\<close>
  | ErrRange string                     \<comment> \<open>\<^verbatim>\<open>strconv.ErrRange\<close> on the given text\<close>
  | NoDevicesFound                      \<comment> \<open>\<^verbatim>\<open>files in /sys/bus/w1/devies: no devices found\<close>\<close>
  | EOFWithoutData                      \<comment> \<open>\<^verbatim>\<open>EOF without data from w1\<close>\<close>
  | CRCMismatch                         \<comment> \<open>\<^verbatim>\<open>CRC mismatch on read\<close>\<close>
  | ErrorDecoding string error          \<comment> \<open>\<^verbatim>\<open>Error decoding %v device id: %v\<close>\<close>
  | UnrecognizedFamilyCode string byte  \<comment> \<open>\<^verbatim>\<open>... Unrecognized one wire family code 0x%x\<close>\<close>
  | ErrorFinding error                  \<comment> \<open>\<^verbatim>\<open>Error finding one wire devices: %v\<close>\<close>
  | ErrorOpening string error           \<comment> \<open>\<^verbatim>\<open>Error opening devices %v: %v\<close>\<close>

text \<open>A call either returns or panics (a nil pointer dereference is a run-time panic).\<close>

datatype 'a outcome = Returned 'a | Panicked

subsection \<open>Regular expressions\<close>

text \<open>
  Go's \<^verbatim>\<open>regexp\<close> returns the leftmost match and, among the matches that start
  there, the one a backtracking search finds first. \<open>bt\<close> is that backtracking search
  in continuation-passing style: \<open>bt r s c k\<close> matches \<open>r\<close> at the start of \<open>s\<close> and
  hands the rest of the input and the text of the capture group to \<open>k\<close>; alternatives are
  tried in order, and a star takes one more iteration before it tries to stop (greedy).
  The two patterns of the package have one capture group each, so the captures are one
  optional string. Matching is on bytes: the classes the patterns use are ASCII, and
  \<^verbatim>\<open>.\<close> accepts every byte but the newline.
\<close>

datatype regex =
    Lit string
  | Cls "char \<Rightarrow> bool"
  | Star regex
  | Cat regex regex
  | Alt regex regex
  | Cap regex

fun bt :: "regex \<Rightarrow> string \<Rightarrow> string option \<Rightarrow> (string \<Rightarrow> string option \<Rightarrow> 'a option) \<Rightarrow> 'a option" where
  "bt (Lit l) s c k = (if prefix l s then k (drop (length l) s) c else None)"
| "bt (Cls p) s c k = (case s of [] \<Rightarrow> None | x # xs \<Rightarrow> if p x then k xs c else None)"
| "bt (Cat a b) s c k = bt a s c (\<lambda>s' c'. bt b s' c' k)"
| "bt (Alt a b) s c k = (case bt a s c k of Some r \<Rightarrow> Some r | None \<Rightarrow> bt b s c k)"
| "bt (Cap a) s c k = bt a s c (\<lambda>s' c'. k s' (Some (take (length s - length s') s)))"
| "bt (Star a) s c k =
     (case bt a s c (\<lambda>s' c'. if length s' < length s then bt (Star a) s' c' k else None) of
        Some r \<Rightarrow> Some r
      | None \<Rightarrow> k s c)"

text \<open>\<^verbatim>\<open>x+\<close> is \<^verbatim>\<open>xx*\<close>.\<close>

definition Plus :: "regex \<Rightarrow> regex" where
  "Plus a = Cat a (Star a)"

text \<open>The character classes \<^verbatim>\<open>\d\<close>, \<^verbatim>\<open>\w\<close>, \<^verbatim>\<open>\s\<close> and \<^verbatim>\<open>.\<close> of Go's syntax.\<close>

definition is_digit :: "char \<Rightarrow> bool" where
  "is_digit c = (c \<in> set ''0123456789'')"

definition is_word :: "char \<Rightarrow> bool" where
  "is_word c =
     (c \<in> set ''0123456789ABCDEFGHIJKLMNOPQRSTUVWXYZ_abcdefghijklmnopqrstuvwxyz'')"

definition is_space :: "char \<Rightarrow> bool" where
  "is_space c = (c \<in> set [CHR 0x09, CHR 0x0A, CHR 0x0C, CHR 0x0D, CHR '' ''])"

definition is_dot :: "char \<Rightarrow> bool" where
  "is_dot c = (c \<noteq> CHR 0x0A)"

text \<open>
  \<^verbatim>\<open>FindStringSubmatch\<close>: the search is not anchored, so the match is tried at every
  start position from the left. The result is the text of the match followed by the
  text of the capture group, and the empty list (Go's nil slice) when nothing matches.
\<close>

fun FindStringSubmatch :: "regex \<Rightarrow> string \<Rightarrow> string list" where
  "FindStringSubmatch r s =
     (case bt r s None (\<lambda>s' c. Some (s', c)) of
        Some (s', c) \<Rightarrow>
          [take (length s - length s') s, (case c of None \<Rightarrow> [] | Some g \<Rightarrow> g)]
      | None \<Rightarrow> (case s of [] \<Rightarrow> [] | _ # t \<Rightarrow> FindStringSubmatch r t))"

text \<open>\<^verbatim>\<open>crc=\w+\s(YES|NO)\<close> and \<^verbatim>\<open>.*\st=(\d+)\<close>.\<close>

definition CrcCheckRegex :: regex where
  "CrcCheckRegex =
     Cat (Lit ''crc='') (Cat (Plus (Cls is_word)) (Cat (Cls is_space)
       (Cap (Alt (Lit ''YES'') (Lit ''NO'')))))"

definition TestSampleRegex :: regex where
  "TestSampleRegex =
     Cat (Star (Cls is_dot)) (Cat (Cls is_space) (Cat (Lit ''t='')
       (Cap (Plus (Cls is_digit)))))"

subsection \<open>Library functions\<close>

text \<open>\<^verbatim>\<open>strings.Contains\<close>.\<close>

fun Contains :: "string \<Rightarrow> string \<Rightarrow> bool" where
  "Contains [] substr = (substr = [])"
| "Contains (c # s) substr = (prefix substr (c # s) \<or> Contains s substr)"

text \<open>
  \<^verbatim>\<open>strconv.ParseInt(s, 10, 64)\<close>: an optional sign, then decimal digits; a syntax
  error on anything else, a range error outside of \<open>-2^63 .. 2^63 - 1\<close>.
\<close>

definition digit_val :: "char \<Rightarrow> int" where
  "digit_val c = int (of_char c) - 48"

definition decimal :: "string \<Rightarrow> int" where
  "decimal ds = foldl (\<lambda>n c. 10 * n + digit_val c) 0 ds"

definition ParseInt :: "string \<Rightarrow> error + int" where
  "ParseInt s =
     (let neg = (s \<noteq> [] \<and> hd s = CHR ''-'');
          ds = (if s \<noteq> [] \<and> (hd s = CHR ''+'' \<or> hd s = CHR ''-'') then tl s else s)
      in if ds = [] \<or> \<not> list_all is_digit ds then Inl (ErrSyntax s)
         else if neg then
           (if 2 ^ 63 < decimal ds then Inl (ErrRange s) else Inr (- decimal ds))
         else
           (if 2 ^ 63 \<le> decimal ds then Inl (ErrRange s) else Inr (decimal ds)))"

text \<open>
  \<^verbatim>\<open>bufio.Scanner\<close> with its default split function \<^verbatim>\<open>ScanLines\<close>: the tokens
  are the lines of the input without the newline and without one trailing carriage
  return; a last line without newline is a token when it is not empty. A line of more
  than \<^verbatim>\<open>MaxScanTokenSize - 1\<close> bytes ends the scan.
\<close>

definition MaxScanTokenSize :: nat where
  "MaxScanTokenSize = 64 * 1024"

definition dropCR :: "string \<Rightarrow> string" where
  "dropCR l = (if l \<noteq> [] \<and> last l = CHR 0x0D then butlast l else l)"

fun scan_from :: "string \<Rightarrow> string \<Rightarrow> string list" where
  "scan_from cur [] =
     (if cur = [] \<or> MaxScanTokenSize \<le> length cur then [] else [dropCR (rev cur)])"
| "scan_from cur (c # cs) =
     (if c = CHR 0x0A then
        (if MaxScanTokenSize \<le> length cur then [] else dropCR (rev cur) # scan_from [] cs)
      else scan_from (c # cur) cs)"

definition ScanLines :: "string \<Rightarrow> string list" where
  "ScanLines data = scan_from [] data"

text \<open>
  \<^verbatim>\<open>binary.LittleEndian.Uint64\<close> and \<^verbatim>\<open>binary.Read\<close> into a \<^verbatim>\<open>uint64\<close>:
  eight bytes are read; no byte at all is \<^verbatim>\<open>io.EOF\<close>, fewer than eight is
  \<^verbatim>\<open>io.ErrUnexpectedEOF\<close>.
\<close>

definition LittleEndian_Uint64 :: "byte list \<Rightarrow> 64 word" where
  "LittleEndian_Uint64 b =
     ucast (b ! 0) OR push_bit 8 (ucast (b ! 1)) OR push_bit 16 (ucast (b ! 2)) OR
     push_bit 24 (ucast (b ! 3)) OR push_bit 32 (ucast (b ! 4)) OR
     push_bit 40 (ucast (b ! 5)) OR push_bit 48 (ucast (b ! 6)) OR
     push_bit 56 (ucast (b ! 7))"

definition binary_Read :: "byte list \<Rightarrow> error + 64 word" where
  "binary_Read content =
     (if content = [] then Inl EOF
      else if length content < 8 then Inl ErrUnexpectedEOF
      else Inr (LittleEndian_Uint64 (take 8 content)))"

subsection \<open>Devices and the environment\<close>

text \<open>
  \<^verbatim>\<open>LastTemp\<close> is a \<^verbatim>\<open>float64\<close>; it is modelled as a real number, and
  \<^verbatim>\<open>float64(v) / 1000\<close> as the exact quotient (the rounding of the conversion and of
  the division is not modelled).
\<close>

record DS1820 =
  ID :: "64 word"
  Name :: string
  DeviceType :: string
  LastTemp :: real

definition modelDS18S20 :: byte where
  "modelDS18S20 = 0x10"

definition modelDS18B20 :: byte where
  "modelDS18B20 = 0x28"

text \<open>The zero value that \<^verbatim>\<open>new(DS1820)\<close> allocates.\<close>

definition zero_DS1820 :: DS1820 where
  "zero_DS1820 = \<lparr>ID = 0, Name = [], DeviceType = [], LastTemp = 0\<rparr>"

text \<open>
  The environment of a call: the result of running \<^verbatim>\<open>modprobe\<close>, the result of
  opening the device directory and of reading its names, and for every path the result
  of opening the file there. An identifier file is its bytes. A status file is what the
  scanner delivers on it: every token together with the value of \<^verbatim>\<open>scanner.Err()\<close>
  after the \<^verbatim>\<open>Scan\<close> that delivered it.
\<close>

record env =
  modprobe :: "error option"
  devices_dir :: "error + (error + string list)"
  id_files :: "string \<Rightarrow> error + byte list"
  w1_slave_files :: "string \<Rightarrow> error + (string \<times> error option) list"

text \<open>The tokens of a status file with the given content that is read without error.\<close>

definition scanned :: "string \<Rightarrow> (string \<times> error option) list" where
  "scanned data = map (\<lambda>l. (l, None)) (ScanLines data)"

definition id_path :: "string \<Rightarrow> string" where
  "id_path name = ''/sys/bus/w1/devices/'' @ name @ ''/id''"

definition w1_slave_path :: "string \<Rightarrow> string" where
  "w1_slave_path name = ''/sys/bus/w1/devices/'' @ name @ ''/w1_slave''"

subsection \<open>Discovery\<close>

text \<open>
  \<^verbatim>\<open>findDevices\<close>: the loop over \<^verbatim>\<open>names\<close> appends every name that does not
  contain \<^verbatim>\<open>w1_bus_master\<close>, which is \<open>filter\<close>.
\<close>

definition findDevices :: "env \<Rightarrow> error + string list" where
  "findDevices e =
     (case modprobe e of
        Some err \<Rightarrow> Inl err
      | None \<Rightarrow>
        (case devices_dir e of
           Inl err \<Rightarrow> Inl err
         | Inr dir \<Rightarrow>
           (case dir of
              Inl err \<Rightarrow> Inl err
            | Inr names \<Rightarrow>
                if length names \<le> 1 then Inl NoDevicesFound
                else Inr (filter (\<lambda>n. \<not> Contains n ''w1_bus_master'') names))))"

text \<open>
  \<^verbatim>\<open>getID\<close> works on the record its receiver points to and returns an error or nil;
  the model returns the error and the record as the call leaves it.
\<close>

definition getID :: "env \<Rightarrow> DS1820 \<Rightarrow> error option \<times> DS1820" where
  "getID e d =
     (let fn = id_path (Name d) in
      case id_files e fn of
        Inl err \<Rightarrow> (Some err, d)
      | Inr idFile \<Rightarrow>
        (case binary_Read idFile of
           Inl err \<Rightarrow> (Some (ErrorDecoding fn err), d)
         | Inr idFileContent \<Rightarrow>
           (let devicetype = (ucast (idFileContent AND 0xff) :: byte) in
            if devicetype = modelDS18B20 then
              (None, d\<lparr>DeviceType := ''DS18B20'',
                        ID := drop_bit 8 (idFileContent AND 0x00ffffffffffff00)\<rparr>)
            else if devicetype = modelDS18S20 then
              (None, d\<lparr>DeviceType := ''DS18S20'',
                        ID := drop_bit 8 (idFileContent AND 0x00ffffffffffff00)\<rparr>)
            else (Some (UnrecognizedFamilyCode fn devicetype), d))))"

text \<open>
  \<^verbatim>\<open>newDS1820\<close> returns a pointer and an error. The pointer is to a record allocated
  in this call that nothing else refers to, so the model returns the record itself, and
  \<open>None\<close> for the nil pointer.
\<close>

definition newDS1820 :: "env \<Rightarrow> string \<Rightarrow> DS1820 option \<times> error option" where
  "newDS1820 e name =
     (let device = zero_DS1820\<lparr>Name := name\<rparr> in
      case getID e device of
        (Some err, _) \<Rightarrow> (None, Some err)
      | (None, device') \<Rightarrow> (Some device', None))"

text \<open>
  The loop of \<^verbatim>\<open>LoadDevices\<close> from index \<open>i\<close> on. \<^verbatim>\<open>devices[i]\<close> is assigned
  before the error is looked at, and the error message reads \<^verbatim>\<open>devices[i].Name\<close>:
  through a nil pointer that read panics.
\<close>

function LoadDevices_loop ::
  "env \<Rightarrow> string list \<Rightarrow> nat \<Rightarrow> DS1820 option list \<Rightarrow> (error + DS1820 option list) outcome"
where
  "LoadDevices_loop e names i devices =
     (if i < length names then
        (case newDS1820 e (names ! i) of
           (p, err) \<Rightarrow>
             (let devices' = devices[i := p] in
              case err of
                Some er \<Rightarrow>
                  (case devices' ! i of
                     None \<Rightarrow> Panicked
                   | Some dev \<Rightarrow> Returned (Inl (ErrorOpening (Name dev) er)))
              | None \<Rightarrow> LoadDevices_loop e names (i + 1) devices'))
      else Returned (Inr devices))"
  by pat_completeness auto
termination
  by (relation "measure (\<lambda>(e, names, i, devices). length names - i)") auto

definition LoadDevices :: "env \<Rightarrow> (error + DS1820 option list) outcome" where
  "LoadDevices e =
     (case findDevices e of
        Inl err \<Rightarrow> Returned (Inl (ErrorFinding err))
      | Inr names \<Rightarrow> LoadDevices_loop e names 0 (replicate (length names) None))"

subsection \<open>Reading samples\<close>

text \<open>
  \<^verbatim>\<open>ReadDevices\<close> gets a slice of pointers and writes through them, and a slice may
  hold a pointer twice. The records live in a heap, a pointer is an address or nil
  (\<open>None\<close>). Go has no dangling pointers, so every address holds a record.
\<close>

type_synonym addr = nat
type_synonym heap = "addr \<Rightarrow> DS1820"

text \<open>
  The body of the scan loop on the token of line \<open>i\<close>: \<open>Some err\<close> is the
  \<^verbatim>\<open>return\<close> of that error, \<open>None\<close> goes on to \<^verbatim>\<open>i++\<close>. The line counter is a
  natural number (Go's \<^verbatim>\<open>int\<close> comes back to 0 only after \<open>2^32\<close> lines or more).
\<close>

definition scanBody :: "nat \<Rightarrow> string \<times> error option \<Rightarrow> addr \<Rightarrow> heap \<Rightarrow> error option \<times> heap" where
  "scanBody i tok device h =
     (case tok of (line, scanner_Err) \<Rightarrow>
        if i = 0 then
          (if scanner_Err \<noteq> None then (Some EOFWithoutData, h)
           else
             (let matches = FindStringSubmatch CrcCheckRegex line in
              if length matches > 0 \<and> matches ! 1 \<noteq> ''YES'' then (Some CRCMismatch, h)
              else (None, h)))
        else
          (if scanner_Err \<noteq> None then (Some EOFWithoutData, h)
           else
             (let matches = FindStringSubmatch TestSampleRegex line in
              if length matches > 0 then
                (case ParseInt (matches ! 1) of
                   Inl err \<Rightarrow> (Some err, h)
                 | Inr v \<Rightarrow>
                     (None, h(device := (h device)\<lparr>LastTemp := real_of_int v / 1000\<rparr>)))
              else (Some EOFWithoutData, h))))"

fun scanLoop :: "nat \<Rightarrow> (string \<times> error option) list \<Rightarrow> addr \<Rightarrow> heap \<Rightarrow> error option \<times> heap" where
  "scanLoop i [] device h = (None, h)"
| "scanLoop i (tok # toks) device h =
     (case scanBody i tok device h of
        (Some err, h') \<Rightarrow> (Some err, h')
      | (None, h') \<Rightarrow> scanLoop (i + 1) toks device h')"

text \<open>
  \<^verbatim>\<open>ReadDevices\<close>: the result is the returned error (\<open>None\<close> for nil) or a panic,
  together with the heap as the call leaves it. Reading \<^verbatim>\<open>device.Name\<close> through a
  nil pointer panics. The deferred \<^verbatim>\<open>Close\<close> calls and the \<^verbatim>\<open>Seek\<close> to the start
  of the file just opened change nothing that the model holds.
\<close>

fun ReadDevices :: "env \<Rightarrow> addr option list \<Rightarrow> heap \<Rightarrow> error option outcome \<times> heap" where
  "ReadDevices e [] h = (Returned None, h)"
| "ReadDevices e (device # d) h =
     (case device of
        None \<Rightarrow> (Panicked, h)
      | Some a \<Rightarrow>
        (case w1_slave_files e (w1_slave_path (Name (h a))) of
           Inl err \<Rightarrow> (Returned (Some err), h)
         | Inr dataFile \<Rightarrow>
           (case scanLoop 0 dataFile a h of
              (Some err, h') \<Rightarrow> (Returned (Some err), h')
            | (None, h') \<Rightarrow> ReadDevices e d h')))"



subsection \<open>Concrete buses\<close>

text \<open>
  A sensor record as discovery leaves it, a heap with three sensors at the addresses 0, 1
  and 2, an environment for reading that holds the given status files (device name and
  content), and an environment for discovery that holds the given directory listing and
  identifier files.
\<close>

definition sensor :: "string \<Rightarrow> DS1820" where
  "sensor name = \<lparr>ID = 0, Name = name, DeviceType = ''DS18B20'', LastTemp = 0\<rparr>"

definition bus3 :: heap where
  "bus3 = (\<lambda>a. zero_DS1820)
     (0 := sensor ''28-000000000001'', 1 := sensor ''28-000000000002'',
      2 := sensor ''28-000000000003'')"

definition status_files :: "(string \<times> string) list \<Rightarrow> env" where
  "status_files files =
     \<lparr>modprobe = None,
      devices_dir = Inl (OSError ''not opened''),
      id_files = (\<lambda>p. Inl (OSError ''no such file or directory'')),
      w1_slave_files = (\<lambda>p.
        case map_of (map (\<lambda>(name, content). (w1_slave_path name, scanned content)) files) p of
          None \<Rightarrow> Inl (OSError ''no such file or directory'')
        | Some toks \<Rightarrow> Inr toks)\<rparr>"

definition discovery :: "string list \<Rightarrow> (string \<times> byte list) list \<Rightarrow> env" where
  "discovery names ids =
     \<lparr>modprobe = None,
      devices_dir = Inr (Inr names),
      id_files = (\<lambda>p.
        case map_of (map (\<lambda>(name, content). (id_path name, content)) ids) p of
          None \<Rightarrow> Inl (OSError ''no such file or directory'')
        | Some content \<Rightarrow> Inr content),
      w1_slave_files = (\<lambda>p. Inl (OSError ''no such file or directory''))\<rparr>"

text \<open>
  Contents of status files, as the kernel driver writes them: readings of 23.125 and of
  21 degrees; a reading whose CRC check failed; a reading followed by an empty line; a
  reading below zero; a field of \<open>2^63\<close>; a file whose second line begins with the
  temperature field; a file that ends after its first line.
\<close>

definition status_23125 :: string where
  "status_23125 =
     ''72 01 4b 46 7f ff 0e 10 57 : crc=57 YES\<newline>72 01 4b 46 7f ff 0e 10 57 t=23125\<newline>''"

definition status_21000 :: string where
  "status_21000 =
     ''50 01 4b 46 7f ff 0c 10 d7 : crc=d7 YES\<newline>50 01 4b 46 7f ff 0c 10 d7 t=21000\<newline>''"

definition status_crc_no :: string where
  "status_crc_no =
     ''90 01 4b 46 7f ff 0c 10 1a : crc=1a NO\<newline>90 01 4b 46 7f ff 0c 10 1a t=25000\<newline>''"

definition status_blank_line :: string where
  "status_blank_line =
     ''90 01 4b 46 7f ff 0c 10 1a : crc=1a YES\<newline>90 01 4b 46 7f ff 0c 10 1a t=25000\<newline>\<newline>''"

definition status_below_zero :: string where
  "status_below_zero =
     ''f8 ff 4b 46 7f ff 0c 10 3c : crc=3c YES\<newline>f8 ff 4b 46 7f ff 0c 10 3c t=-500\<newline>''"

definition status_out_of_range :: string where
  "status_out_of_range =
     ''90 01 4b 46 7f ff 0c 10 1a : crc=1a YES\<newline>90 01 4b 46 7f ff 0c 10 1a t=9223372036854775808\<newline>''"

definition status_field_first :: string where
  "status_field_first =
     ''90 01 4b 46 7f ff 0c 10 1a : crc=1a YES\<newline>t=25000\<newline>''"

definition status_crc_only :: string where
  "status_crc_only = ''72 01 4b 46 7f ff 0e 10 57 : crc=57 YES\<newline>''"

text \<open>Two samples after the CRC line, and the same with an empty line after them.\<close>

definition status_two_samples :: string where
  "status_two_samples =
     ''90 01 4b 46 7f ff 0c 10 1a : crc=1a YES\<newline>90 01 4b 46 7f ff 0c 10 1a t=25000\<newline>50 01 4b 46 7f ff 0c 10 d7 t=21000\<newline>''"

definition status_two_samples_blank :: string where
  "status_two_samples_blank =
     ''90 01 4b 46 7f ff 0c 10 1a : crc=1a YES\<newline>90 01 4b 46 7f ff 0c 10 1a t=25000\<newline>50 01 4b 46 7f ff 0c 10 d7 t=21000\<newline>\<newline>''"

text \<open>The definitions that a run on a concrete bus unfolds.\<close>

lemmas run_defs =
  status_files_def discovery_def bus3_def sensor_def zero_DS1820_def scanned_def ScanLines_def
  MaxScanTokenSize_def dropCR_def w1_slave_path_def id_path_def scanBody_def
  FindStringSubmatch.simps CrcCheckRegex_def TestSampleRegex_def Plus_def
  is_digit_def is_word_def is_space_def is_dot_def ParseInt_def decimal_def digit_val_def
  LoadDevices_def findDevices_def newDS1820_def getID_def binary_Read_def
  LittleEndian_Uint64_def modelDS18B20_def modelDS18S20_def Let_def
  status_23125_def status_21000_def status_crc_no_def status_blank_line_def
  status_below_zero_def status_field_first_def status_crc_only_def
  status_two_samples_def status_two_samples_blank_def
  status_out_of_range_def

section \<open>The backtracking search on the two patterns\<close>

subsection \<open>A star over a character class\<close>

lemma bt_Star_Cls_Nil [simp]: "bt (Star (Cls p)) [] c k = k [] c"
  by simp

lemma bt_Star_Cls_Cons [simp]:
  "bt (Star (Cls p)) (x # xs) c k =
     (if p x then (case bt (Star (Cls p)) xs c k of Some r \<Rightarrow> Some r | None \<Rightarrow> k (x # xs) c)
      else k (x # xs) c)"
  by simp

declare bt.simps(6) [simp del]



text \<open>A result of the star is a result of the continuation after a run of the class.\<close>

lemma bt_Star_Cls_Some_run:
  "bt (Star (Cls p)) s c k = Some r \<Longrightarrow> \<exists>ys zs. s = ys @ zs \<and> list_all p ys \<and> k zs c = Some r"
proof (induction s)
  case Nil
  then have "[] = [] @ [] \<and> list_all p [] \<and> k [] c = Some r" by simp
  then show ?case by (intro exI)
next
  case (Cons x xs)
  show ?case
  proof (cases "p x \<and> bt (Star (Cls p)) xs c k \<noteq> None")
    case True
    with Cons.prems have "bt (Star (Cls p)) xs c k = Some r" by auto
    from Cons.IH [OF this] obtain ys zs where "xs = ys @ zs" "list_all p ys" "k zs c = Some r"
      by (elim exE conjE)
    with True have "x # xs = (x # ys) @ zs \<and> list_all p (x # ys) \<and> k zs c = Some r" by simp
    then show ?thesis by (intro exI)
  next
    case False
    with Cons.prems have "k (x # xs) c = Some r" by (auto split: if_splits)
    then have "x # xs = [] @ (x # xs) \<and> list_all p [] \<and> k (x # xs) c = Some r" by simp
    then show ?thesis by (intro exI)
  qed
qed






subsection \<open>The sample pattern\<close>





subsection \<open>The search from the left\<close>

lemma FindStringSubmatch_first:
  "bt r s None (\<lambda>s' c. Some (s', c)) = Some (s', c) \<Longrightarrow>
   FindStringSubmatch r s = [take (length s - length s') s, (case c of None \<Rightarrow> [] | Some g \<Rightarrow> g)]"
  by simp

lemma FindStringSubmatch_Nil:
  "bt r [] None (\<lambda>s' c. Some (s', c)) = None \<Longrightarrow> FindStringSubmatch r [] = []"
  by simp

lemma FindStringSubmatch_next:
  "bt r (x # xs) None (\<lambda>s' c. Some (s', c)) = None \<Longrightarrow>
   FindStringSubmatch r (x # xs) = FindStringSubmatch r xs"
  by simp

declare FindStringSubmatch.simps [simp del]


lemma FindStringSubmatch_shape:
  "FindStringSubmatch r s \<noteq> [] \<Longrightarrow>
   \<exists>v s' c. suffix v s \<and> bt r v None (\<lambda>s' c. Some (s', c)) = Some (s', c) \<and>
     FindStringSubmatch r s = [take (length v - length s') v, (case c of None \<Rightarrow> [] | Some g \<Rightarrow> g)]"
proof (induction s)
  case Nil
  then show ?case by (cases "bt r [] None (\<lambda>s' c. Some (s', c))")
      (auto simp: FindStringSubmatch_Nil FindStringSubmatch_first)
next
  case (Cons x xs)
  show ?case
  proof (cases "bt r (x # xs) None (\<lambda>s' c. Some (s', c))")
    case None
    then have eq: "FindStringSubmatch r (x # xs) = FindStringSubmatch r xs"
      by (rule FindStringSubmatch_next)
    with Cons obtain v s' c where "suffix v xs"
      "bt r v None (\<lambda>s' c. Some (s', c)) = Some (s', c)"
      "FindStringSubmatch r xs = [take (length v - length s') v, (case c of None \<Rightarrow> [] | Some g \<Rightarrow> g)]"
      by auto
    with eq show ?thesis by (metis suffix_Cons)
  next
    case (Some a)
    obtain s' c where a: "a = (s', c)" by (cases a)
    have "suffix (x # xs) (x # xs)" by simp
    moreover note Some [unfolded a]
    moreover have "FindStringSubmatch r (x # xs) = [take (length (x # xs) - length s') (x # xs), (case c of None \<Rightarrow> [] | Some g \<Rightarrow> g)]"
      using Some a by (simp add: FindStringSubmatch_first)
    ultimately show ?thesis by blast
  qed
qed

subsection \<open>When the sample pattern matches, and what it captures\<close>








lemma bt_CrcCheckRegex_capture:
  assumes "bt CrcCheckRegex s c (\<lambda>s' c. Some (s', c)) = Some (s', c')"
  shows "c' = Some ''YES'' \<or> c' = Some ''NO''"
proof -
  let ?k = "\<lambda>s' c'. bt (Cat (Cls is_space) (Cap (Alt (Lit ''YES'') (Lit ''NO'')))) s' c'
      (\<lambda>s' c. Some (s', c))"
  from assms obtain s1 where "bt (Plus (Cls is_word)) s1 c ?k = Some (s', c')"
    by (simp add: CrcCheckRegex_def split: if_splits)
  then obtain s2 where "bt (Star (Cls is_word)) s2 c ?k = Some (s', c')"
    by (cases s1) (simp_all add: Plus_def split: if_splits)
  from bt_Star_Cls_Some_run [OF this]
  obtain zs where z: "?k zs c = Some (s', c')" by (elim exE conjE)
  then obtain x v where zs: "zs = x # v" by (cases zs) simp_all
  have cap: "take (length v - (length v - length l)) v = l" if "prefix l v" for l
  proof -
    from that obtain t where "v = l @ t" by (rule prefixE)
    then show ?thesis by simp
  qed
  from z show ?thesis
    unfolding zs using cap [of "''YES''"] cap [of "''NO''"]
    by (auto split: if_splits option.splits)
qed

lemma CrcCheck_verdict:
  assumes "FindStringSubmatch CrcCheckRegex line \<noteq> []"
  shows "FindStringSubmatch CrcCheckRegex line ! 1 = ''YES'' \<or>
         FindStringSubmatch CrcCheckRegex line ! 1 = ''NO''"
proof -
  from FindStringSubmatch_shape [OF assms]
  obtain v s' c where
    m: "bt CrcCheckRegex v None (\<lambda>s' c. Some (s', c)) = Some (s', c)" and
    res: "FindStringSubmatch CrcCheckRegex line =
      [take (length v - length s') v, (case c of None \<Rightarrow> [] | Some g \<Rightarrow> g)]"
    by (elim exE conjE)
  from bt_CrcCheckRegex_capture [OF m] res show ?thesis by auto
qed

section \<open>The scan loop and the devices it writes\<close>


lemma scanBody_first:
  "scanBody 0 (line, None) a h =
     (if FindStringSubmatch CrcCheckRegex line \<noteq> [] \<and>
         FindStringSubmatch CrcCheckRegex line ! 1 \<noteq> ''YES''
      then (Some CRCMismatch, h) else (None, h))"
  by (simp add: scanBody_def Let_def)


text \<open>
  Frame: the scan of a device writes \<^verbatim>\<open>LastTemp\<close> of that device and nothing else,
  and a call of \<^verbatim>\<open>ReadDevices\<close> leaves the records it has no pointer to as they were.
\<close>

lemma scanBody_frame:
  "scanBody i tok a h = (r, h') \<Longrightarrow> \<exists>x. h' = h(a := (h a)\<lparr>LastTemp := x\<rparr>)"
proof -
  have same: "h = h(a := (h a)\<lparr>LastTemp := LastTemp (h a)\<rparr>)" by simp
  assume "scanBody i tok a h = (r, h')"
  then have "h' = h \<or> (\<exists>x. h' = h(a := (h a)\<lparr>LastTemp := x\<rparr>))"
    by (auto simp: scanBody_def Let_def split: prod.splits if_splits sum.splits)
  with same show ?thesis by metis
qed

lemma scanLoop_frame:
  "scanLoop i toks a h = (r, h') \<Longrightarrow> \<exists>x. h' = h(a := (h a)\<lparr>LastTemp := x\<rparr>)"
proof (induction toks arbitrary: i h)
  case Nil
  then have "h' = h(a := (h a)\<lparr>LastTemp := LastTemp (h a)\<rparr>)" by simp
  then show ?case ..
next
  case (Cons tok toks)
  obtain r1 h1 where b: "scanBody i tok a h = (r1, h1)" by (cases "scanBody i tok a h")
  from scanBody_frame [OF b] obtain x where h1: "h1 = h(a := (h a)\<lparr>LastTemp := x\<rparr>)" ..
  show ?case
  proof (cases r1)
    case None
    with Cons.prems b have "scanLoop (i + 1) toks a h1 = (r, h')" by simp
    from Cons.IH [OF this] obtain y where "h' = h1(a := (h1 a)\<lparr>LastTemp := y\<rparr>)" ..
    with h1 have "h' = h(a := (h a)\<lparr>LastTemp := y\<rparr>)" by simp
    then show ?thesis ..
  next
    case (Some err)
    with Cons.prems b have "h' = h1" by simp
    with h1 show ?thesis by blast
  qed
qed

lemma ReadDevices_frame:
  "ReadDevices e d h = (r, h') \<Longrightarrow>
     (\<forall>b. Some b \<notin> set d \<longrightarrow> h' b = h b) \<and> (\<forall>b. (h' b)\<lparr>LastTemp := LastTemp (h b)\<rparr> = h b)"
proof (induction d arbitrary: h)
  case Nil
  then show ?case by simp
next
  case (Cons device d)
  show ?case
  proof (cases device)
    case None
    with Cons.prems show ?thesis by simp
  next
    case (Some a)
    show ?thesis
    proof (cases "w1_slave_files e (w1_slave_path (Name (h a)))")
      case (Inl err)
      with Some Cons.prems show ?thesis by simp
    next
      case (Inr dataFile)
      obtain r1 h1 where l: "scanLoop 0 dataFile a h = (r1, h1)"
        by (cases "scanLoop 0 dataFile a h")
      from scanLoop_frame [OF l] obtain x where h1: "h1 = h(a := (h a)\<lparr>LastTemp := x\<rparr>)" ..
      show ?thesis
      proof (cases r1)
        case None
        with Some Inr l Cons.prems have "ReadDevices e d h1 = (r, h')" by simp
        from Cons.IH [OF this] have
          "\<forall>b. Some b \<notin> set d \<longrightarrow> h' b = h1 b" "\<forall>b. (h' b)\<lparr>LastTemp := LastTemp (h1 b)\<rparr> = h1 b"
          by simp_all
        then have "\<forall>b. Some b \<notin> set d \<and> b \<noteq> a \<longrightarrow> h' b = h b"
          and "\<forall>b. (h' b)\<lparr>LastTemp := LastTemp (h b)\<rparr> = h b"
          unfolding h1 by (simp, metis (no_types, lifting) DS1820.surjective DS1820.update_convs(4) fun_upd_apply)
        with Some show ?thesis by auto
      next
        case (Some err)
        with \<open>device = Some a\<close> Inr l Cons.prems have "h' = h1" by simp
        with h1 \<open>device = Some a\<close> show ?thesis by simp
      qed
    qed
  qed
qed

text \<open>The devices are read in the order of the slice; the first failure ends the call.\<close>

lemma ReadDevices_append:
  "ReadDevices e (ps @ qs) h =
     (case ReadDevices e ps h of
        (Returned None, h1) \<Rightarrow> ReadDevices e qs h1
      | other \<Rightarrow> other)"
  by (induction ps arbitrary: h)
     (auto split: option.splits sum.splits prod.splits outcome.splits)





section \<open>What a failed decoding does to discovery\<close>

text \<open>
  \<^verbatim>\<open>newDS1820\<close> returns the nil pointer with every error, so the loop of
  \<^verbatim>\<open>LoadDevices\<close> never returns an error: the first name whose identity does not
  decode makes it panic.
\<close>

lemma newDS1820_error_nil: "newDS1820 e name = (p, Some er) \<Longrightarrow> p = None"
  by (auto simp: newDS1820_def Let_def split: prod.splits option.splits)

declare LoadDevices_loop.simps [simp del]

lemma LoadDevices_loop_no_error:
  "length devices = length names \<Longrightarrow> LoadDevices_loop e names i devices \<noteq> Returned (Inl er)"
proof (induction e names i devices rule: LoadDevices_loop.induct)
  case (1 e names i devices)
  show ?case
  proof (cases "i < length names")
    case False
    then show ?thesis by (subst LoadDevices_loop.simps) simp
  next
    case True
    obtain p err where n: "newDS1820 e (names ! i) = (p, err)" by (cases "newDS1820 e (names ! i)")
    show ?thesis
    proof (cases err)
      case None
      have "LoadDevices_loop e names (i + 1) (devices[i := p]) \<noteq> Returned (Inl er)"
        using "1.IH" [OF True n [symmetric] refl None] "1.prems" by simp
      with True n None show ?thesis by (subst LoadDevices_loop.simps) simp
    next
      case (Some x)
      with n have "p = None" by (simp add: newDS1820_error_nil)
      with True n Some "1.prems" show ?thesis by (subst LoadDevices_loop.simps) simp
    qed
  qed
qed

text \<open>The low byte of the little-endian value is the first byte read.\<close>

lemma LittleEndian_low_byte:
  "(ucast (LittleEndian_Uint64 b AND 0xff) :: byte) = b ! 0"
proof -
  have m: "(0xff :: 64 word) = mask 8" by (simp add: mask_eq_exp_minus_1)
  show ?thesis
    unfolding LittleEndian_Uint64_def m
    by (rule bit_word_eqI) (auto simp: bit_simps)
qed


text \<open>
  The value of \<^verbatim>\<open>LittleEndian.Uint64\<close> as a number: byte \<open>i\<close> counts \<open>256 ^ i\<close>.
  Masked and shifted, it is the number of the bytes 1 to 6.
\<close>

lemma byte_or_higher:
  fixes x :: byte and r :: "64 word"
  shows "ucast x OR push_bit 8 r = ucast x + 256 * r"
proof -
  have "ucast x + push_bit 8 r = ucast x OR push_bit 8 r"
    by (rule disjunctive_add_eq_or) (auto simp: bit_eq_iff bit_simps dest: bit_imp_le_length)
  then show ?thesis by (simp add: push_bit_eq_mult mult.commute)
qed

lemma unat_byte_less: "unat (x :: byte) < 256"
  using unsigned_less [of x, where 'a = nat] by simp

lemma LittleEndian_Uint64_nested:
  "LittleEndian_Uint64 b =
     ucast (b ! 0) OR push_bit 8 (
     ucast (b ! 1) OR push_bit 8 (
     ucast (b ! 2) OR push_bit 8 (
     ucast (b ! 3) OR push_bit 8 (
     ucast (b ! 4) OR push_bit 8 (
     ucast (b ! 5) OR push_bit 8 (
     ucast (b ! 6) OR push_bit 8 (ucast (b ! 7))))))))"
  unfolding LittleEndian_Uint64_def
  by (simp only: push_bit_or push_bit_push_bit) simp

lemma sum_bytes_nested:
  fixes f :: "nat \<Rightarrow> nat"
  shows "(\<Sum>i<8. f i * 256 ^ i) =
     f 0 + 256 * (f 1 + 256 * (f 2 + 256 * (f 3 + 256 * (f 4 + 256 * (f 5 + 256 * (f 6 +
       256 * f 7))))))"
proof -
  have "{..<8::nat} = {0, 1, 2, 3, 4, 5, 6, 7}" by auto
  then show ?thesis by simp
qed

lemma LittleEndian_Uint64_value:
  "LittleEndian_Uint64 b = of_nat (\<Sum>i<8. unat (b ! i) * 256 ^ i)"
  unfolding LittleEndian_Uint64_nested sum_bytes_nested
  by (simp only: byte_or_higher of_nat_add of_nat_mult of_nat_numeral of_nat_unat)

lemma LittleEndian_Uint64_unat:
  "unat (LittleEndian_Uint64 b) = (\<Sum>i<8. unat (b ! i) * 256 ^ i)"
proof (rule of_nat_inverse)
  show "word_of_nat (\<Sum>i<8. unat (b ! i) * 256 ^ i) = LittleEndian_Uint64 b"
    by (rule LittleEndian_Uint64_value [symmetric])
  show "(\<Sum>i<8. unat (b ! i) * 256 ^ i) < 2 ^ LENGTH(64)"
    unfolding sum_bytes_nested
    using unat_byte_less [of "b ! 0"] unat_byte_less [of "b ! 1"] unat_byte_less [of "b ! 2"]
      unat_byte_less [of "b ! 3"] unat_byte_less [of "b ! 4"] unat_byte_less [of "b ! 5"]
      unat_byte_less [of "b ! 6"] unat_byte_less [of "b ! 7"]
    by simp
qed

lemma serial_mask: "(0x00ffffffffffff00 :: 64 word) = push_bit 8 (mask 48)"
  by (simp add: mask_eq_exp_minus_1 push_bit_eq_mult)

lemma serial_drop_low_byte:
  fixes x :: byte and r :: "64 word"
  shows "drop_bit 8 ((ucast x OR push_bit 8 r) AND 0x00ffffffffffff00) = take_bit 48 r"
  unfolding serial_mask
  by (rule bit_word_eqI) (auto simp: bit_simps dest: bit_imp_le_length)

lemma sum_serial_nested:
  fixes f :: "nat \<Rightarrow> nat"
  shows "(\<Sum>i\<in>{1..6}. f i * 256 ^ (i - 1)) =
     f 1 + 256 * (f 2 + 256 * (f 3 + 256 * (f 4 + 256 * (f 5 + 256 * f 6))))"
proof -
  have "{1..6::nat} = {1, 2, 3, 4, 5, 6}" by auto
  then show ?thesis by simp
qed

lemma LittleEndian_Uint64_serial:
  "unat (drop_bit 8 (LittleEndian_Uint64 b AND 0x00ffffffffffff00)) =
     (\<Sum>i\<in>{1..6}. unat (b ! i) * 256 ^ (i - 1))"
proof -
  let ?r = "ucast (b ! 1) OR push_bit 8 (ucast (b ! 2) OR push_bit 8 (ucast (b ! 3) OR
    push_bit 8 (ucast (b ! 4) OR push_bit 8 (ucast (b ! 5) OR push_bit 8 (ucast (b ! 6) OR
    push_bit 8 (ucast (b ! 7))))))) :: 64 word"
  let ?n = "unat (b ! 1) + 256 * (unat (b ! 2) + 256 * (unat (b ! 3) + 256 * (unat (b ! 4) +
    256 * (unat (b ! 5) + 256 * (unat (b ! 6) + 256 * unat (b ! 7))))))"
  have bytes: "unat (b ! 1) < 256" "unat (b ! 2) < 256" "unat (b ! 3) < 256"
    "unat (b ! 4) < 256" "unat (b ! 5) < 256" "unat (b ! 6) < 256" "unat (b ! 7) < 256"
    by (rule unat_byte_less)+
  have r: "word_of_nat ?n = ?r"
    by (simp only: byte_or_higher of_nat_add of_nat_mult of_nat_numeral of_nat_unat)
  have "?n < 2 ^ LENGTH(64)"
    using bytes by simp
  with r have n: "unat ?r = ?n" by (rule of_nat_inverse)
  have "drop_bit 8 (LittleEndian_Uint64 b AND 0x00ffffffffffff00) = take_bit 48 ?r"
    unfolding LittleEndian_Uint64_nested by (rule serial_drop_low_byte)
  moreover have "unat (take_bit 48 w) = unat w mod 2 ^ 48" for w :: "64 word"
    by (subst unsigned_take_bit_eq) (rule take_bit_eq_mod)
  ultimately have "unat (drop_bit 8 (LittleEndian_Uint64 b AND 0x00ffffffffffff00)) =
      unat ?r mod 2 ^ 48"
    by (simp only:)
  also have "\<dots> = ?n mod 2 ^ 48"
    by (simp only: n)
  also have "\<dots> = (\<Sum>i\<in>{1..6}. unat (b ! i) * 256 ^ (i - 1))"
  proof -
    let ?a = "unat (b ! 1) + 256 * (unat (b ! 2) + 256 * (unat (b ! 3) + 256 * (unat (b ! 4) +
      256 * (unat (b ! 5) + 256 * unat (b ! 6)))))"
    have "?n = ?a + 2 ^ 48 * unat (b ! 7)" by simp
    then have "?n mod 2 ^ 48 = ?a mod 2 ^ 48" by (simp only: mod_mult_self2)
    moreover have "?a < 2 ^ 48" using bytes by simp
    ultimately have "?n mod 2 ^ 48 = ?a" by (simp only: mod_less)
    then show ?thesis by (simp only: sum_serial_nested)
  qed
  finally show ?thesis .
qed

lemma LittleEndian_Uint64_take: "LittleEndian_Uint64 (take 8 b) = LittleEndian_Uint64 b"
  by (simp add: LittleEndian_Uint64_def)


lemma LoadDevices_loop_failure_panics:
  assumes "length devices = length names" and "i \<le> j" and "j < length names"
    and "snd (newDS1820 e (names ! j)) \<noteq> None"
  shows "LoadDevices_loop e names i devices = Panicked"
  using assms
proof (induction e names i devices rule: LoadDevices_loop.induct)
  case (1 e names i devices)
  from "1.prems" have i: "i < length names" by simp
  obtain p err where n: "newDS1820 e (names ! i) = (p, err)" by (cases "newDS1820 e (names ! i)")
  show ?case
  proof (cases err)
    case None
    with n "1.prems" have "i \<noteq> j" by auto
    with "1.prems" have "i + 1 \<le> j" by simp
    with "1.prems" have "LoadDevices_loop e names (i + 1) (devices[i := p]) = Panicked"
      using "1.IH" [OF i n [symmetric] refl None] by simp
    with i n None show ?thesis by (subst LoadDevices_loop.simps) simp
  next
    case (Some x)
    with n have "p = None" by (simp add: newDS1820_error_nil)
    with i n Some "1.prems" show ?thesis by (subst LoadDevices_loop.simps) simp
  qed
qed

lemma LoadDevices_failure_panics:
  assumes "findDevices e = Inr names" and "j < length names"
    and "snd (newDS1820 e (names ! j)) \<noteq> None"
  shows "LoadDevices e = Panicked"
  using assms LoadDevices_loop_failure_panics [of "replicate (length names) None" names 0 j e]
  by (simp add: LoadDevices_def)

section \<open>Status files that end early, and what the scanner delivers\<close>

text \<open>
  A status file without a token, or with one token that passes the CRC check, is passed
  over: the call goes on with the next device, and the heap is as it was.
\<close>

lemma ReadDevices_short_file_skipped:
  assumes "w1_slave_files e (w1_slave_path (Name (h a))) = Inr toks"
    and "toks = [] \<or> (\<exists>tok. toks = [tok] \<and> fst (scanBody 0 tok a h) = None)"
  shows "ReadDevices e (Some a # d) h = ReadDevices e d h"
proof -
  have "scanLoop 0 toks a h = (None, h)"
  proof (cases toks)
    case Nil
    then show ?thesis by simp
  next
    case (Cons tok rest)
    with assms(2) have "toks = [tok]" and "fst (scanBody 0 tok a h) = None" by auto
    moreover from this(2) have "scanBody 0 tok a h = (None, h)"
      by (cases tok) (auto simp: scanBody_def Let_def split: if_splits)
    ultimately show ?thesis by simp
  qed
  with assms(1) show ?thesis by simp
qed

text \<open>No token of \<^verbatim>\<open>ScanLines\<close> holds a newline.\<close>

lemma dropCR_subset: "set (dropCR l) \<subseteq> set l"
  by (auto simp: dropCR_def dest: in_set_butlastD)

lemma scan_from_no_newline:
  assumes "CHR 0x0A \<notin> set cur" and "l \<in> set (scan_from cur data)"
  shows "CHR 0x0A \<notin> set l"
  using assms
proof (induction cur data rule: scan_from.induct)
  case (1 cur)
  then have "l = dropCR (rev cur)" by (simp split: if_splits)
  with dropCR_subset [of "rev cur"] "1.prems"(1) show ?case by auto
next
  case (2 cur c cs)
  show ?case
  proof (cases "c = CHR 0x0A")
    case True
    with "2.prems"(2) have "l = dropCR (rev cur) \<or> l \<in> set (scan_from [] cs)"
      by (simp split: if_splits)
    then show ?thesis
    proof
      assume "l = dropCR (rev cur)"
      with dropCR_subset [of "rev cur"] "2.prems"(1) show ?thesis by auto
    next
      assume l: "l \<in> set (scan_from [] cs)"
      from "2.prems"(2) True have "\<not> MaxScanTokenSize \<le> length cur"
        by (auto split: if_splits)
      from "2.IH"(1) [OF True this _ l] show ?thesis by simp
    qed
  next
    case False
    with "2.prems" have "l \<in> set (scan_from (c # cur) cs)" and "CHR 0x0A \<notin> set (c # cur)"
      by auto
    with "2.IH"(2) [OF False] show ?thesis by simp
  qed
qed

lemma ScanLines_no_newline: "l \<in> set (ScanLines data) \<Longrightarrow> CHR 0x0A \<notin> set l"
  unfolding ScanLines_def by (rule scan_from_no_newline [of "[]"]) simp_all

section \<open>The claims\<close>

text \<open>
  C1: when the identity of an enumerated device cannot be decoded (identifier file missing,
  fewer than eight bytes, unrecognized family code), \<^verbatim>\<open>LoadDevices\<close> should return an
  error that names the device, and the error path should not crash. It crashes:
  \<^verbatim>\<open>newDS1820\<close> returns a nil pointer with its error, and the error message reads
  \<^verbatim>\<open>devices[i].Name\<close> through that pointer. The three runs below, one for each kind
  of decoding failure, panic.
\<close>

theorem LoadDevices_decode_failure_panics:
  "LoadDevices (discovery [''w1_bus_master1'', ''28-0000aabbcc'']
      [(''28-0000aabbcc'', [0x27, 0x0F, 0xEE, 0xDD, 0xCC, 0xBB, 0xAA, 0x00])]) = Panicked \<and>
   LoadDevices (discovery [''w1_bus_master1'', ''28-0000aabbcc'']
      [(''28-0000aabbcc'', [0x28, 0x0F, 0xEE])]) = Panicked \<and>
   LoadDevices (discovery [''w1_bus_master1'', ''28-0000aabbcc''] []) = Panicked"
  by (simp add: run_defs LoadDevices_loop.simps)

text \<open>
  C2: a device whose status file ends before any line matched the temperature pattern
  should fail the call with \<^verbatim>\<open>EOF without data\<close>. The scan loop just ends, and the
  call goes on to the next device: with an empty status file for the second of three
  devices the call returns nil, the second device keeps its old temperature and the third
  is read; a file of the CRC line alone is passed over in the same way.
\<close>

theorem ReadDevices_exhausted_file_succeeds:
  "ReadDevices
     (status_files
       [(''28-000000000001'', status_23125), (''28-000000000002'', ''''),
        (''28-000000000003'', status_21000)])
     [Some 0, Some 1, Some 2] bus3 =
     (Returned None,
      bus3(0 := (bus3 0)\<lparr>LastTemp := 23125 / 1000\<rparr>, 2 := (bus3 2)\<lparr>LastTemp := 21\<rparr>)) \<and>
   ReadDevices (status_files [(''28-000000000001'', status_crc_only)]) [Some 0] bus3 =
     (Returned None, bus3)"
  by (simp add: run_defs)




text \<open>
  C4: \<^verbatim>\<open>getID\<close> reads the first eight bytes of the identifier file as a little-endian
  64-bit value: byte \<open>i\<close> of the file counts \<open>256 ^ i\<close>. The low byte of the value,
  which is the first byte of the file, is the family code: \<open>0x28\<close> gives the type
  DS18B20, \<open>0x10\<close> gives DS18S20, and every other code is the error of an unrecognized
  family code. The id is the value masked with \<open>0x00ffffffffffff00\<close> and shifted right by
  eight bits, which is the number that the bytes 1 to 6 of the file denote.
\<close>

theorem getID_decodes:
  assumes "id_files e (id_path (Name d)) = Inr content" and "8 \<le> length content"
  shows "getID e d =
     (let v = (word_of_nat (\<Sum>i<8. unat (content ! i) * 256 ^ i) :: 64 word);
          family = (ucast (v AND 0xff) :: byte);
          serial = drop_bit 8 (v AND 0x00ffffffffffff00) in
      if family = 0x28 then (None, d\<lparr>DeviceType := ''DS18B20'', ID := serial\<rparr>)
      else if family = 0x10 then (None, d\<lparr>DeviceType := ''DS18S20'', ID := serial\<rparr>)
      else (Some (UnrecognizedFamilyCode (id_path (Name d)) family), d)) \<and>
     (ucast ((word_of_nat (\<Sum>i<8. unat (content ! i) * 256 ^ i) :: 64 word) AND 0xff) :: byte) =
       content ! 0 \<and>
     unat (drop_bit 8 ((word_of_nat (\<Sum>i<8. unat (content ! i) * 256 ^ i) :: 64 word) AND
       0x00ffffffffffff00)) = (\<Sum>i\<in>{1..6}. unat (content ! i) * 256 ^ (i - 1))"
proof -
  have v: "LittleEndian_Uint64 (take 8 content) =
      word_of_nat (\<Sum>i<8. unat (content ! i) * 256 ^ i)"
    by (subst LittleEndian_Uint64_take) (rule LittleEndian_Uint64_value)
  have "binary_Read content = Inr (LittleEndian_Uint64 (take 8 content))"
    using assms(2) by (auto simp: binary_Read_def)
  then have "getID e d =
     (let v = LittleEndian_Uint64 (take 8 content);
          family = (ucast (v AND 0xff) :: byte);
          serial = drop_bit 8 (v AND 0x00ffffffffffff00) in
      if family = 0x28 then (None, d\<lparr>DeviceType := ''DS18B20'', ID := serial\<rparr>)
      else if family = 0x10 then (None, d\<lparr>DeviceType := ''DS18S20'', ID := serial\<rparr>)
      else (Some (UnrecognizedFamilyCode (id_path (Name d)) family), d))"
    using assms(1) by (simp add: getID_def Let_def modelDS18B20_def modelDS18S20_def)
  moreover have "(ucast (LittleEndian_Uint64 (take 8 content) AND 0xff) :: byte) = content ! 0"
    by (subst LittleEndian_Uint64_take) (rule LittleEndian_low_byte)
  moreover have "unat (drop_bit 8 (LittleEndian_Uint64 (take 8 content) AND 0x00ffffffffffff00)) =
      (\<Sum>i\<in>{1..6}. unat (content ! i) * 256 ^ (i - 1))"
    by (subst LittleEndian_Uint64_take) (rule LittleEndian_Uint64_serial)
  ultimately show ?thesis
    unfolding v by (intro conjI)
qed


text \<open>
  The blob \<open>0x00AABBCCDDEE0F28\<close>, in a file as the bytes 28 0F EE DD CC BB AA 00, decodes
  to the id \<open>0xAABBCCDDEE0F\<close> and the type DS18B20; a blob of family \<open>0x10\<close> decodes to
  the type DS18S20, and one of family \<open>0x27\<close> is refused.
\<close>

theorem getID_decodes_witness:
  "id_files (discovery [''w1_bus_master1'', ''28-0000aabbcc'']
       [(''28-0000aabbcc'', [0x28, 0x0F, 0xEE, 0xDD, 0xCC, 0xBB, 0xAA, 0x00])])
     (id_path (Name (zero_DS1820\<lparr>Name := ''28-0000aabbcc''\<rparr>))) =
     Inr [0x28, 0x0F, 0xEE, 0xDD, 0xCC, 0xBB, 0xAA, 0x00] \<and>
   8 \<le> length [0x28, 0x0F, 0xEE, 0xDD, 0xCC, 0xBB, 0xAA, 0x00 :: byte] \<and>
   (word_of_nat (\<Sum>i<8. unat ([0x28, 0x0F, 0xEE, 0xDD, 0xCC, 0xBB, 0xAA, 0x00 :: byte] ! i) * 256 ^ i)
      :: 64 word) = 0x00AABBCCDDEE0F28 \<and>
   getID (discovery [''w1_bus_master1'', ''28-0000aabbcc'']
       [(''28-0000aabbcc'', [0x28, 0x0F, 0xEE, 0xDD, 0xCC, 0xBB, 0xAA, 0x00])])
     (zero_DS1820\<lparr>Name := ''28-0000aabbcc''\<rparr>) =
     (None, \<lparr>ID = 0xAABBCCDDEE0F, Name = ''28-0000aabbcc'', DeviceType = ''DS18B20'',
              LastTemp = 0\<rparr>) \<and>
   getID (discovery [''w1_bus_master1'', ''10-000801020304'']
       [(''10-000801020304'', [0x10, 0x04, 0x03, 0x02, 0x01, 0x08, 0x00, 0x9C])])
     (zero_DS1820\<lparr>Name := ''10-000801020304''\<rparr>) =
     (None, \<lparr>ID = 0x000801020304, Name = ''10-000801020304'', DeviceType = ''DS18S20'',
              LastTemp = 0\<rparr>) \<and>
   getID (discovery [''w1_bus_master1'', ''27-0000aabbcc'']
       [(''27-0000aabbcc'', [0x27, 0x0F, 0xEE, 0xDD, 0xCC, 0xBB, 0xAA, 0x00])])
     (zero_DS1820\<lparr>Name := ''27-0000aabbcc''\<rparr>) =
     (Some (UnrecognizedFamilyCode ''/sys/bus/w1/devices/27-0000aabbcc/id'' 0x27),
      zero_DS1820\<lparr>Name := ''27-0000aabbcc''\<rparr>)"
  using getID_decodes [of
      "discovery [''w1_bus_master1'', ''28-0000aabbcc'']
         [(''28-0000aabbcc'', [0x28, 0x0F, 0xEE, 0xDD, 0xCC, 0xBB, 0xAA, 0x00])]"
      "zero_DS1820\<lparr>Name := ''28-0000aabbcc''\<rparr>"
      "[0x28, 0x0F, 0xEE, 0xDD, 0xCC, 0xBB, 0xAA, 0x00]"]
  by (simp add: run_defs sum_bytes_nested)




text \<open>
  C6, as claimed: a listing in which no real device name remains after the bus-master
  entries are filtered out fails. A listing of two bus masters passes the guard on the
  number of entries, and the empty sequence is returned without error.
\<close>

theorem findDevices_only_bus_masters:
  "findDevices (discovery [''w1_bus_master1'', ''w1_bus_master2''] []) = Inr []"
  by (simp add: findDevices_def discovery_def)

text \<open>
  C6, amended: for a listing in which no real device name remains after the filter,
  \<^verbatim>\<open>findDevices\<close> fails with the error that no devices were found when the listing has
  one or no entry, and returns the empty sequence without error when it has two or more.
\<close>

theorem findDevices_no_real_device:
  assumes "modprobe e = None" and "devices_dir e = Inr (Inr names)"
    and "filter (\<lambda>n. \<not> Contains n ''w1_bus_master'') names = []"
  shows "findDevices e = (if length names \<le> 1 then Inl NoDevicesFound else Inr [])"
  using assms by (simp add: findDevices_def)

theorem findDevices_no_real_device_witness:
  "modprobe (discovery [''w1_bus_master1''] []) = None \<and>
   devices_dir (discovery [''w1_bus_master1''] []) = Inr (Inr [''w1_bus_master1'']) \<and>
   filter (\<lambda>n. \<not> Contains n ''w1_bus_master'') [''w1_bus_master1''] = [] \<and>
   findDevices (discovery [''w1_bus_master1''] []) = Inl NoDevicesFound"
  using findDevices_no_real_device [of "discovery [''w1_bus_master1''] []" "[''w1_bus_master1'']"]
  by (simp add: discovery_def)

text \<open>
  C7: when the devices before were read without error, the record of the device is not
  also among them, and the CRC pattern matches the first line of its status file with a
  verdict other than \<^verbatim>\<open>YES\<close>, the call fails with the CRC mismatch error, and the
  record of the device is as it was before the call.
\<close>

theorem ReadDevices_crc_mismatch:
  assumes "ReadDevices e ps h = (Returned None, h1)"
    and "Some a \<notin> set ps"
    and "w1_slave_files e (w1_slave_path (Name (h a))) = Inr ((line, None) # toks)"
    and "FindStringSubmatch CrcCheckRegex line \<noteq> []"
    and "FindStringSubmatch CrcCheckRegex line ! 1 \<noteq> ''YES''"
  shows "ReadDevices e (ps @ Some a # qs) h = (Returned (Some CRCMismatch), h1) \<and> h1 a = h a"
proof -
  from ReadDevices_frame [OF assms(1)] assms(2) have same: "h1 a = h a" by simp
  have "scanBody 0 (line, None) a h1 = (Some CRCMismatch, h1)"
    using assms(4,5) by (simp add: scanBody_first)
  then have "ReadDevices e (Some a # qs) h1 = (Returned (Some CRCMismatch), h1)"
    using assms(3) same by simp
  then have "ReadDevices e (ps @ Some a # qs) h = (Returned (Some CRCMismatch), h1)"
    using assms(1) by (simp add: ReadDevices_append)
  then show ?thesis using same by (rule conjI)
qed

theorem ReadDevices_crc_mismatch_witness:
  "ReadDevices
     (status_files [(''28-000000000001'', status_23125), (''28-000000000002'', status_crc_no)])
     [Some 0] bus3 = (Returned None, bus3(0 := (bus3 0)\<lparr>LastTemp := 23125 / 1000\<rparr>)) \<and>
   Some 1 \<notin> set [Some (0 :: nat)] \<and>
   w1_slave_files
     (status_files [(''28-000000000001'', status_23125), (''28-000000000002'', status_crc_no)])
     (w1_slave_path (Name (bus3 1))) =
     Inr [(''90 01 4b 46 7f ff 0c 10 1a : crc=1a NO'', None),
          (''90 01 4b 46 7f ff 0c 10 1a t=25000'', None)] \<and>
   FindStringSubmatch CrcCheckRegex ''90 01 4b 46 7f ff 0c 10 1a : crc=1a NO'' =
     [''crc=1a NO'', ''NO''] \<and>
   ReadDevices
     (status_files [(''28-000000000001'', status_23125), (''28-000000000002'', status_crc_no)])
     ([Some 0] @ Some 1 # [Some 2]) bus3 =
     (Returned (Some CRCMismatch), bus3(0 := (bus3 0)\<lparr>LastTemp := 23125 / 1000\<rparr>)) \<and>
   LastTemp ((bus3(0 := (bus3 0)\<lparr>LastTemp := 23125 / 1000\<rparr>)) 1) = 0"
  using ReadDevices_crc_mismatch [of
      "status_files [(''28-000000000001'', status_23125), (''28-000000000002'', status_crc_no)]"
      "[Some 0]" bus3 "bus3(0 := (bus3 0)\<lparr>LastTemp := 23125 / 1000\<rparr>)" 1
      "''90 01 4b 46 7f ff 0c 10 1a : crc=1a NO''"
      "[(''90 01 4b 46 7f ff 0c 10 1a t=25000'', None)]" "[Some 2]"]
  by (simp add: run_defs)




text \<open>
  C9: a listing of one or no entry fails with the error that no devices were found, also
  when the one entry is a real device.
\<close>

theorem findDevices_one_or_fewer:
  assumes "modprobe e = None" and "devices_dir e = Inr (Inr names)" and "length names \<le> 1"
  shows "findDevices e = Inl NoDevicesFound"
  using assms by (simp add: findDevices_def)

theorem findDevices_one_or_fewer_witness:
  "modprobe (discovery [''28-0000aabbcc''] []) = None \<and>
   devices_dir (discovery [''28-0000aabbcc''] []) = Inr (Inr [''28-0000aabbcc'']) \<and>
   length [''28-0000aabbcc''] \<le> 1 \<and>
   \<not> Contains ''28-0000aabbcc'' ''w1_bus_master'' \<and>
   findDevices (discovery [''28-0000aabbcc''] []) = Inl NoDevicesFound"
  using findDevices_one_or_fewer [of "discovery [''28-0000aabbcc''] []" "[''28-0000aabbcc'']"]
  by (simp add: discovery_def)



end
